theory Spec2Isabelle
  imports Main "HOL-Library.Multiset"
begin

section \<open>Data model of \<open>main.go\<close>\<close>

text \<open>
  The Go structs become records. Go has one name space per struct, Isabelle one per theory,
  so every field carries the initials of its struct: \<open>hc_Status\<close> is
  \<open>HealthComponent.Status\<close>, \<open>hr_Status\<close> is \<open>HealthResponse.Status\<close>. Strings are byte
  lists, as Go's are. An instant of \<open>time.Time\<close> is an integer (its distance from some epoch);
  \<open>UTC()\<close> changes the location a time is printed in, not the instant.
\<close>

type_synonym time = int

record ComponentConfig =
  cc_Name :: string
  cc_Endpoint :: string

record AppConfig =
  cfg_Components :: "ComponentConfig list"
  cfg_CheckInterval :: int
  cfg_LogDirectory :: string
  cfg_LogRetentionDays :: int
  cfg_ListenAddress :: string

record HealthComponent =
  hc_Name :: string
  hc_Status :: string
  hc_EndpointStatus :: string
  hc_HTTPResult :: string
  hc_LastChecked :: time
  hc_Error :: string

record HealthResponse =
  hr_Status :: string
  hr_Components :: "HealthComponent list"

text \<open>The anonymous struct \<open>logEntry\<close> that \<open>checkComponents\<close> marshals and prints.\<close>

record logEntry =
  le_Time :: time
  le_Component :: string
  le_Status :: string
  le_EndpointStatus :: string
  le_HTTPResult :: string
  le_Error :: string

text \<open>
  \<open>StatusMap.Components\<close> is a Go map from names to records. The mutex \<open>mu\<close> has no
  counterpart: the model runs one operation at a time.
\<close>

record StatusMap =
  Components :: "string \<rightharpoonup> HealthComponent"

section \<open>What the program asks of the Go runtime and of the network\<close>

text \<open>
  What \<open>client.Get\<close> hands back: an error whose \<open>Error()\<close> text is kept, or a response with
  its status line (\<open>resp.Status\<close>), its status code and the bytes \<open>io.ReadAll\<close> reads from its
  body (the error of \<open>io.ReadAll\<close> is dropped by the source).
\<close>

record Response =
  resp_Status :: string
  resp_StatusCode :: int
  resp_Body :: string

datatype get_result = Get_err string | Get_ok Response

text \<open>
  The library and the outside world are parameters of the model.
  \<^item> \<open>http_Get n url\<close> is the outcome of the \<open>n\<close>-th call of \<open>client.Get\<close>, made on \<open>url\<close>.
  \<^item> \<open>time_Now n\<close> is what the \<open>n\<close>-th call of \<open>time.Now\<close> returns.
  \<^item> \<open>json_Unmarshal body\<close> is the outcome of \<open>json.Unmarshal(body, &health)\<close> for the
    one-field struct \<open>health\<close>: the error (\<open>None\<close> for Go's \<open>nil\<close>) and the value of
    \<open>health.Status\<close> afterwards.
  \<^item> \<open>strings_ToLower\<close> and \<open>strings_TrimSpace\<close> are the functions of package \<open>strings\<close>.
\<close>

record go_runtime =
  http_Get :: "nat \<Rightarrow> string \<Rightarrow> get_result"
  time_Now :: "nat \<Rightarrow> time"
  json_Unmarshal :: "string \<Rightarrow> string option \<times> string"
  strings_ToLower :: "string \<Rightarrow> string"
  strings_TrimSpace :: "string \<Rightarrow> string"

text \<open>
  The mutable state a probe cycle touches: the status map, the lines handed to the logger,
  and how many calls of \<open>client.Get\<close> and of \<open>time.Now\<close> have been made so far.
\<close>

record world =
  statusMap :: StatusMap
  logger :: "logEntry list"
  gets :: nat
  nows :: nat

text \<open>
  A method call on a nil interface value is a run-time panic (\<open>invalid memory address or
  nil pointer dereference\<close>). Nothing in \<open>main.go\<close> recovers from it, so it ends the process.
\<close>

datatype panic = NilDereference

section \<open>The status store\<close>

definition NewStatusMap :: StatusMap where
  "NewStatusMap = \<lparr>Components = Map.empty\<rparr>"

text \<open>
  \<open>Update\<close> names two fields of the composite literal and the time; Go fills the fields left
  out with the zero value of their type, the empty string. \<open>now\<close> is what \<open>time.Now()\<close>
  returned.
\<close>

definition Update :: "time \<Rightarrow> string \<Rightarrow> string \<Rightarrow> StatusMap \<Rightarrow> StatusMap" where
  "Update now name status s =
     s\<lparr>Components := (Components s)(name \<mapsto>
        \<lparr>hc_Name = name, hc_Status = status, hc_EndpointStatus = [], hc_HTTPResult = [],
         hc_LastChecked = now, hc_Error = []\<rparr>)\<rparr>"

text \<open>
  \<open>range\<close> over a Go map visits every key once, in an order the language leaves open and the
  runtime varies from one loop to the next. \<open>ks\<close> is the order of one such loop.
\<close>

definition range_order :: "StatusMap \<Rightarrow> string list \<Rightarrow> bool" where
  "range_order s ks \<longleftrightarrow> distinct ks \<and> set ks = dom (Components s)"

definition GetAll :: "string list \<Rightarrow> StatusMap \<Rightarrow> HealthComponent list" where
  "GetAll ks s = List.map_filter (Components s) ks"

section \<open>The probe cycle\<close>

definition trimToOk :: "go_runtime \<Rightarrow> string \<Rightarrow> bool" where
  "trimToOk rt s \<longleftrightarrow> strings_TrimSpace rt (strings_ToLower rt s) = ''ok''"

text \<open>
  The four local variables of the loop body of \<open>checkComponents\<close> as they stand when the
  \<open>if err != nil\<close> statement is left.
\<close>

record verdict =
  v_status :: string
  v_endpointStatus :: string
  v_httpResult :: string
  v_errMsg :: string

text \<open>
  The \<open>if err != nil \<dots> else \<dots>\<close> statement of the loop body. \<open>status\<close> starts as
  \<open>unknown\<close> and \<open>endpointStatus\<close> as \<open>not ok\<close>; every branch assigns \<open>status\<close>, the failing
  ones leave \<open>endpointStatus\<close> alone. In the last branch \<open>decErr.Error()\<close> is called whatever
  \<open>decErr\<close> is.
\<close>

definition classify :: "go_runtime \<Rightarrow> get_result \<Rightarrow> panic + verdict" where
  "classify rt r =
     (case r of
        Get_err err \<Rightarrow>
          Inr \<lparr>v_status = ''unreachable'', v_endpointStatus = ''not ok'',
               v_httpResult = err, v_errMsg = err\<rparr>
      | Get_ok resp \<Rightarrow>
          (let httpResult = resp_Status resp;
               bodyBytes = resp_Body resp;
               (decErr, health_Status) = json_Unmarshal rt bodyBytes
           in if decErr = None \<and> health_Status = ''ok'' then
                Inr \<lparr>v_status = ''ok'', v_endpointStatus = ''ok'',
                     v_httpResult = httpResult, v_errMsg = []\<rparr>
              else
                (let bodyStr = bodyBytes
                 in if resp_StatusCode resp = 200 \<and> (length bodyStr = 0 \<or> trimToOk rt bodyStr) then
                      Inr \<lparr>v_status = ''ok'', v_endpointStatus = ''ok'',
                           v_httpResult = httpResult, v_errMsg = []\<rparr>
                    else if resp_StatusCode resp = 200 then
                      Inr \<lparr>v_status = ''ok'', v_endpointStatus = ''ok'',
                           v_httpResult = httpResult, v_errMsg = []\<rparr>
                    else
                      (case decErr of
                         None \<Rightarrow> Inl NilDereference
                       | Some msg \<Rightarrow>
                           Inr \<lparr>v_status = ''invalid_response'', v_endpointStatus = ''not ok'',
                                v_httpResult = httpResult, v_errMsg = msg\<rparr>))))"

text \<open>The record the loop body stores and the entry it logs, built from the same four variables.\<close>

definition record_of :: "string \<Rightarrow> verdict \<Rightarrow> time \<Rightarrow> HealthComponent" where
  "record_of name v now =
     \<lparr>hc_Name = name, hc_Status = v_status v, hc_EndpointStatus = v_endpointStatus v,
      hc_HTTPResult = v_httpResult v, hc_LastChecked = now, hc_Error = v_errMsg v\<rparr>"

definition entry_of :: "string \<Rightarrow> verdict \<Rightarrow> time \<Rightarrow> logEntry" where
  "entry_of name v now =
     \<lparr>le_Time = now, le_Component = name, le_Status = v_status v,
      le_EndpointStatus = v_endpointStatus v, le_HTTPResult = v_httpResult v,
      le_Error = v_errMsg v\<rparr>"

text \<open>
  The assignment \<open>statusMap.Components[c.Name] = HealthComponent{\<dots>}\<close> between \<open>Lock\<close> and
  \<open>Unlock\<close>: the prober writes the map itself and does not go through \<open>Update\<close>.
\<close>

definition store_write :: "string \<Rightarrow> verdict \<Rightarrow> time \<Rightarrow> StatusMap \<Rightarrow> StatusMap" where
  "store_write name v now s = s\<lparr>Components := (Components s)(name \<mapsto> record_of name v now)\<rparr>"

text \<open>
  One turn of the loop of \<open>checkComponents\<close>: the call of \<open>client.Get\<close>, the classification,
  the write into the map (first call of \<open>time.Now\<close>) and the log line (second call). A panic
  carries the state it leaves behind: the call of \<open>client.Get\<close> is made, nothing is stored or
  logged for this component.
\<close>

definition probe :: "go_runtime \<Rightarrow> ComponentConfig \<Rightarrow> world \<Rightarrow> (panic \<times> world) + world" where
  "probe rt c w =
     (let r = http_Get rt (gets w) (cc_Endpoint c);
          w1 = w\<lparr>gets := Suc (gets w)\<rparr>
      in case classify rt r of
           Inl p \<Rightarrow> Inl (p, w1)
         | Inr v \<Rightarrow>
             (let w2 = w1\<lparr>statusMap := store_write (cc_Name c) v (time_Now rt (nows w1)) (statusMap w1),
                          nows := Suc (nows w1)\<rparr>;
                  line = entry_of (cc_Name c) v (time_Now rt (nows w2))
              in Inr (w2\<lparr>logger := logger w2 @ [line], nows := Suc (nows w2)\<rparr>)))"

fun probe_all :: "go_runtime \<Rightarrow> ComponentConfig list \<Rightarrow> world \<Rightarrow> (panic \<times> world) + world" where
  "probe_all rt [] w = Inr w"
| "probe_all rt (c # cs) w =
     (case probe rt c w of
        Inl pw \<Rightarrow> Inl pw
      | Inr w' \<Rightarrow> probe_all rt cs w')"

definition checkComponents :: "go_runtime \<Rightarrow> AppConfig \<Rightarrow> world \<Rightarrow> (panic \<times> world) + world" where
  "checkComponents rt cfg w = probe_all rt (cfg_Components cfg) w"

section \<open>The report\<close>

text \<open>
  The loop of the \<open>/health\<close> handler: \<open>status\<close> is \<open>ok\<close> until a record with another status
  is met, then \<open>degraded\<close>, and the loop is left.
\<close>

fun aggregate :: "HealthComponent list \<Rightarrow> string" where
  "aggregate [] = ''ok''"
| "aggregate (c # cs) = (if hc_Status c \<noteq> ''ok'' then ''degraded'' else aggregate cs)"

definition health_handler :: "string list \<Rightarrow> StatusMap \<Rightarrow> HealthResponse" where
  "health_handler ks s =
     (let components = GetAll ks s
      in \<lparr>hr_Status = aggregate components, hr_Components = components\<rparr>)"

section \<open>Reading a result\<close>

text \<open>The state a cycle ends in, whether it returned or panicked, and a lookup in its store.\<close>

definition world_of :: "(panic \<times> world) + world \<Rightarrow> world" where
  "world_of res = (case res of Inl (p, w) \<Rightarrow> w | Inr w \<Rightarrow> w)"

definition stored :: "world \<Rightarrow> string \<Rightarrow> HealthComponent option" where
  "stored w name = Components (statusMap w) name"

definition new_world :: world where
  "new_world = \<lparr>statusMap = NewStatusMap, logger = [], gets = 0, nows = 0\<rparr>"

section \<open>Sequences of store operations\<close>

text \<open>
  The three things the program does to a \<open>StatusMap\<close>: the exported \<open>Update\<close>, the
  prober's own write and \<open>GetAll\<close>, which reads only.
\<close>

datatype store_op =
    Op_Update time string string
  | Op_write string verdict time
  | Op_GetAll "string list"

fun apply_op :: "StatusMap \<Rightarrow> store_op \<Rightarrow> StatusMap" where
  "apply_op s (Op_Update now name status) = Update now name status s"
| "apply_op s (Op_write name v now) = store_write name v now s"
| "apply_op s (Op_GetAll ks) = s"

definition run_ops :: "store_op list \<Rightarrow> StatusMap \<Rightarrow> StatusMap" where
  "run_ops ops s = foldl apply_op s ops"

text \<open>The record an operation puts into the map, with the key it puts it under.\<close>

fun written :: "store_op \<Rightarrow> (string \<times> HealthComponent) option" where
  "written (Op_Update now name status) =
     Some (name, \<lparr>hc_Name = name, hc_Status = status, hc_EndpointStatus = [],
                  hc_HTTPResult = [], hc_LastChecked = now, hc_Error = []\<rparr>)"
| "written (Op_write name v now) = Some (name, record_of name v now)"
| "written (Op_GetAll ks) = None"

section \<open>A concrete runtime for the examples\<close>

text \<open>
  The general theorems below hold for every runtime. The examples need one to compute with.
  \<open>sample_Unmarshal\<close> tabulates \<open>json.Unmarshal\<close> into \<open>struct{Status string}\<close> on the
  bodies the examples send: two JSON objects, the empty body and the plain text \<open>OK\<close>, whose
  answer every body outside the table is given too. \<open>ascii_ToLower\<close> and \<open>ascii_TrimSpace\<close>
  are \<open>strings.ToLower\<close> and \<open>strings.TrimSpace\<close> on ASCII strings.
\<close>

definition sample_Unmarshal :: "string \<Rightarrow> string option \<times> string" where
  \<open>sample_Unmarshal body =
     (if body = ''{"status":"ok"}'' then (None, ''ok'')
      else if body = ''{"status":"down"}'' then (None, ''down'')
      else if body = [] then (Some ''unexpected end of JSON input'', [])
      else (Some ''invalid character 'O' looking for beginning of value'', []))\<close>

definition ascii_ToLower :: "string \<Rightarrow> string" where
  "ascii_ToLower s =
     map (\<lambda>c. if 65 \<le> (of_char c :: nat) \<and> (of_char c :: nat) \<le> 90
              then char_of (of_char c + 32 :: nat) else c) s"

definition ascii_space :: "char \<Rightarrow> bool" where
  "ascii_space c \<longleftrightarrow> (of_char c :: nat) \<in> {9, 10, 11, 12, 13, 32}"

definition ascii_TrimSpace :: "string \<Rightarrow> string" where
  "ascii_TrimSpace s = rev (dropWhile ascii_space (rev (dropWhile ascii_space s)))"

text \<open>The text of the error \<open>client.Get\<close> returns when nothing listens at the address.\<close>

definition refused :: string where
  \<open>refused = ''Get "http://cache/health": dial tcp 10.0.0.7:80: connect: connection refused''\<close>

text \<open>
  Four endpoints that answer, with what a call of \<open>client.Get\<close> on each finds at any time,
  and the endpoint of \<open>cache\<close>, which refuses the connection. The examples call no other
  address; one that did would be refused too.
\<close>

definition sample_Get :: "nat \<Rightarrow> string \<Rightarrow> get_result" where
  \<open>sample_Get n url =
     (if url = ''http://db/health'' then
        Get_ok \<lparr>resp_Status = ''200 OK'', resp_StatusCode = 200,
                resp_Body = ''{"status":"ok"}''\<rparr>
      else if url = ''http://api/health'' then
        Get_ok \<lparr>resp_Status = ''503 Service Unavailable'', resp_StatusCode = 503,
                resp_Body = ''{"status":"down"}''\<rparr>
      else if url = ''http://lb/health'' then
        Get_ok \<lparr>resp_Status = ''503 Service Unavailable'', resp_StatusCode = 503,
                resp_Body = ''{"status":"ok"}''\<rparr>
      else if url = ''http://web/health'' then
        Get_ok \<lparr>resp_Status = ''200 OK'', resp_StatusCode = 200, resp_Body = ''OK''\<rparr>
      else
        Get_err refused)\<close>

definition sample_rt :: go_runtime where
  "sample_rt =
     \<lparr>http_Get = sample_Get, time_Now = int, json_Unmarshal = sample_Unmarshal,
      strings_ToLower = ascii_ToLower, strings_TrimSpace = ascii_TrimSpace\<rparr>"

definition db :: ComponentConfig where
  "db = \<lparr>cc_Name = ''db'', cc_Endpoint = ''http://db/health''\<rparr>"

definition api :: ComponentConfig where
  "api = \<lparr>cc_Name = ''api'', cc_Endpoint = ''http://api/health''\<rparr>"

definition lb :: ComponentConfig where
  "lb = \<lparr>cc_Name = ''lb'', cc_Endpoint = ''http://lb/health''\<rparr>"

definition web :: ComponentConfig where
  "web = \<lparr>cc_Name = ''web'', cc_Endpoint = ''http://web/health''\<rparr>"

definition cache :: ComponentConfig where
  "cache = \<lparr>cc_Name = ''cache'', cc_Endpoint = ''http://cache/health''\<rparr>"

definition config_of :: "ComponentConfig list \<Rightarrow> AppConfig" where
  "config_of cs =
     \<lparr>cfg_Components = cs, cfg_CheckInterval = 30, cfg_LogDirectory = ''logs'',
      cfg_LogRetentionDays = 7, cfg_ListenAddress = '':8081''\<rparr>"

text \<open>The state after one cycle over three of them, started from nothing.\<close>

definition after_cycle :: world where
  "after_cycle = world_of (checkComponents sample_rt (config_of [db, cache, web]) new_world)"

section \<open>Properties\<close>


lemma classify_Get_err:
  "classify rt (Get_err err) =
     Inr \<lparr>v_status = ''unreachable'', v_endpointStatus = ''not ok'',
          v_httpResult = err, v_errMsg = err\<rparr>"
  by (simp add: classify_def)

lemma classify_json_ok:
  assumes "json_Unmarshal rt (resp_Body resp) = (None, ''ok'')"
  shows "classify rt (Get_ok resp) =
     Inr \<lparr>v_status = ''ok'', v_endpointStatus = ''ok'',
          v_httpResult = resp_Status resp, v_errMsg = []\<rparr>"
  using assms by (simp add: classify_def)

lemma classify_200:
  assumes "resp_StatusCode resp = 200"
  shows "classify rt (Get_ok resp) =
     Inr \<lparr>v_status = ''ok'', v_endpointStatus = ''ok'',
          v_httpResult = resp_Status resp, v_errMsg = []\<rparr>"
  using assms by (simp add: classify_def Let_def split: prod.split)

lemma classify_nil_decErr:
  assumes "json_Unmarshal rt (resp_Body resp) = (None, st)"
    and "st \<noteq> ''ok''" and "resp_StatusCode resp \<noteq> 200"
  shows "classify rt (Get_ok resp) = Inl NilDereference"
  using assms by (simp add: classify_def)

lemma classify_decode_error:
  assumes "json_Unmarshal rt (resp_Body resp) = (Some msg, st)"
    and "resp_StatusCode resp \<noteq> 200"
  shows "classify rt (Get_ok resp) =
     Inr \<lparr>v_status = ''invalid_response'', v_endpointStatus = ''not ok'',
          v_httpResult = resp_Status resp, v_errMsg = msg\<rparr>"
  using assms by (simp add: classify_def)

lemma sample_simps:
  "http_Get sample_rt = sample_Get" "time_Now sample_rt = int"
  "json_Unmarshal sample_rt = sample_Unmarshal"
  "strings_ToLower sample_rt = ascii_ToLower" "strings_TrimSpace sample_rt = ascii_TrimSpace"
  by (simp_all add: sample_rt_def)


lemma probe_Inr:
  assumes "classify rt (http_Get rt (gets w) (cc_Endpoint c)) = Inr v"
  shows "probe rt c w =
     Inr \<lparr>statusMap = store_write (cc_Name c) v (time_Now rt (nows w)) (statusMap w),
          logger = logger w @ [entry_of (cc_Name c) v (time_Now rt (Suc (nows w)))],
          gets = Suc (gets w), nows = Suc (Suc (nows w))\<rparr>"
  using assms by (simp add: probe_def Let_def)

lemma probe_Inl:
  assumes "classify rt (http_Get rt (gets w) (cc_Endpoint c)) = Inl p"
  shows "probe rt c w = Inl (p, w\<lparr>gets := Suc (gets w)\<rparr>)"
  using assms by (simp add: probe_def Let_def)

lemma sample_db: \<open>classify sample_rt (sample_Get n ''http://db/health'') =
   Inr \<lparr>v_status = ''ok'', v_endpointStatus = ''ok'', v_httpResult = ''200 OK'', v_errMsg = []\<rparr>\<close>
  by (simp add: sample_Get_def classify_json_ok sample_simps sample_Unmarshal_def)

lemma sample_lb: \<open>classify sample_rt (sample_Get n ''http://lb/health'') =
   Inr \<lparr>v_status = ''ok'', v_endpointStatus = ''ok'', v_httpResult = ''503 Service Unavailable'', v_errMsg = []\<rparr>\<close>
  by (simp add: sample_Get_def classify_json_ok sample_simps sample_Unmarshal_def)

lemma sample_web: \<open>classify sample_rt (sample_Get n ''http://web/health'') =
   Inr \<lparr>v_status = ''ok'', v_endpointStatus = ''ok'', v_httpResult = ''200 OK'', v_errMsg = []\<rparr>\<close>
  by (simp add: sample_Get_def classify_200)

lemma sample_api: \<open>classify sample_rt (sample_Get n ''http://api/health'') = Inl NilDereference\<close>
  by (simp add: sample_Get_def sample_simps sample_Unmarshal_def classify_nil_decErr [where st = "''down''"])

lemma sample_cache: \<open>classify sample_rt (sample_Get n ''http://cache/health'') =
   Inr \<lparr>v_status = ''unreachable'', v_endpointStatus = ''not ok'',
        v_httpResult = refused, v_errMsg = refused\<rparr>\<close>
  by (simp add: sample_Get_def classify_Get_err)

lemmas sample_classify = sample_db sample_lb sample_web sample_api sample_cache

lemma components_simps:
  "cc_Name db = ''db''" "cc_Endpoint db = ''http://db/health''"
  "cc_Name api = ''api''" "cc_Endpoint api = ''http://api/health''"
  "cc_Name lb = ''lb''" "cc_Endpoint lb = ''http://lb/health''"
  "cc_Name web = ''web''" "cc_Endpoint web = ''http://web/health''"
  "cc_Name cache = ''cache''" "cc_Endpoint cache = ''http://cache/health''"
  by (simp_all add: db_def api_def lb_def web_def cache_def)


lemma run_ops_snoc: "run_ops (ops @ [op]) s = apply_op (run_ops ops s) op"
  by (simp add: run_ops_def)

lemma run_ops_Nil: "run_ops [] s = s"
  by (simp add: run_ops_def)

lemma apply_op_written:
  "Components (apply_op s op) =
     (case written op of None \<Rightarrow> Components s | Some (n, r) \<Rightarrow> (Components s)(n \<mapsto> r))"
  by (cases op) (simp_all add: Update_def store_write_def)

lemma written_name: "written op = Some (n, r) \<Longrightarrow> hc_Name r = n"
  by (cases op) (auto simp: record_of_def)

lemma dom_run_ops: "dom (Components s) \<subseteq> dom (Components (run_ops ops s))"
proof (induction ops rule: rev_induct)
  case Nil
  show ?case by (simp add: run_ops_Nil)
next
  case (snoc op ops)
  have "dom (Components (run_ops ops s)) \<subseteq> dom (Components (apply_op (run_ops ops s) op))"
    by (auto simp: apply_op_written split: option.splits)
  with snoc show ?case by (simp add: run_ops_snoc)
qed

lemma run_ops_origin:
  "Components (run_ops ops s) n = Some r \<Longrightarrow>
     Components s n = Some r \<or> (\<exists>op \<in> set ops. written op = Some (n, r))"
proof (induction ops arbitrary: r rule: rev_induct)
  case Nil
  then show ?case by (simp add: run_ops_Nil)
next
  case (snoc op ops)
  show ?case
  proof (cases "written op")
    case None
    with snoc.prems have "Components (run_ops ops s) n = Some r"
      by (simp add: run_ops_snoc apply_op_written)
    with snoc.IH show ?thesis by auto
  next
    case (Some nr)
    obtain n' r' where nr: "nr = (n', r')" by (cases nr)
    show ?thesis
    proof (cases "n' = n")
      case True
      with snoc.prems Some nr have "r' = r"
        by (simp add: run_ops_snoc apply_op_written)
      with Some nr True show ?thesis by auto
    next
      case False
      with snoc.prems Some nr have "Components (run_ops ops s) n = Some r"
        by (simp add: run_ops_snoc apply_op_written)
      with snoc.IH show ?thesis by auto
    qed
  qed
qed

lemma run_ops_last_write:
  "written op = Some (n, r) \<Longrightarrow> Components (run_ops (ops @ [op]) s) n = Some r"
  by (simp add: run_ops_snoc apply_op_written)

lemma run_ops_key_is_name:
  assumes "Components (run_ops ops NewStatusMap) n = Some r"
  shows "hc_Name r = n"
proof -
  from run_ops_origin [OF assms] obtain op where "written op = Some (n, r)"
    by (auto simp: NewStatusMap_def)
  then show ?thesis by (rule written_name)
qed

lemma GetAll_range:
  assumes "range_order s ks"
  shows "GetAll ks s = map (\<lambda>k. the (Components s k)) ks"
proof -
  from assms have "\<forall>k \<in> set ks. Components s k \<noteq> None"
    by (auto simp: range_order_def)
  then have "filter (\<lambda>k. Components s k \<noteq> None) ks = ks"
    by (simp add: filter_id_conv)
  then show ?thesis
    by (simp add: GetAll_def map_filter_def comp_def)
qed

lemma GetAll_mset:
  assumes "range_order s ks1" and "range_order s ks2"
  shows "mset (GetAll ks1 s) = mset (GetAll ks2 s)"
proof -
  from assms have "mset ks1 = mset ks2"
    by (simp add: range_order_def set_eq_iff_mset_eq_distinct [symmetric])
  then have "mset (map (\<lambda>k. the (Components s k)) ks1) = mset (map (\<lambda>k. the (Components s k)) ks2)"
    by (metis mset_map)
  with assms show ?thesis by (simp add: GetAll_range)
qed

lemma GetAll_names:
  assumes "range_order (run_ops ops NewStatusMap) ks"
  shows "map hc_Name (GetAll ks (run_ops ops NewStatusMap)) = ks"
proof -
  let ?s = "run_ops ops NewStatusMap"
  have "hc_Name (the (Components ?s k)) = k" if "k \<in> set ks" for k
  proof -
    from that assms obtain r where "Components ?s k = Some r"
      by (auto simp: range_order_def)
    then show ?thesis by (simp add: run_ops_key_is_name)
  qed
  then have "map (\<lambda>k. hc_Name (the (Components ?s k))) ks = ks"
    by (simp add: map_idI)
  with assms show ?thesis by (simp add: GetAll_range comp_def)
qed

lemma aggregate_iff:
  "aggregate cs = (if \<forall>c \<in> set cs. hc_Status c = ''ok'' then ''ok'' else ''degraded'')"
  by (induction cs) auto

lemma classify_status:
  "classify rt r = Inr v \<Longrightarrow> v_status v \<in> {''ok'', ''unreachable'', ''invalid_response''}"
  by (cases r) (auto simp: classify_def Let_def split: prod.splits if_splits option.splits)


lemma probe_cases:
  obtains (returns) v where "classify rt (http_Get rt (gets w) (cc_Endpoint c)) = Inr v"
      "probe rt c w =
         Inr \<lparr>statusMap = store_write (cc_Name c) v (time_Now rt (nows w)) (statusMap w),
              logger = logger w @ [entry_of (cc_Name c) v (time_Now rt (Suc (nows w)))],
              gets = Suc (gets w), nows = Suc (Suc (nows w))\<rparr>"
    | (panics) p where "classify rt (http_Get rt (gets w) (cc_Endpoint c)) = Inl p"
      "probe rt c w = Inl (p, w\<lparr>gets := Suc (gets w)\<rparr>)"
proof (cases "classify rt (http_Get rt (gets w) (cc_Endpoint c))")
  case (Inl p)
  with panics probe_Inl show ?thesis by blast
next
  case (Inr v)
  with returns probe_Inr show ?thesis by blast
qed

lemma probe_stored:
  assumes "stored (world_of (probe rt c w)) n = Some r"
  shows "stored w n = Some r \<or> hc_Status r \<in> {''ok'', ''unreachable'', ''invalid_response''}"
proof (cases rule: probe_cases [of rt w c])
  case (returns v)
  from returns(1) have "hc_Status (record_of (cc_Name c) v t) \<in>
      {''ok'', ''unreachable'', ''invalid_response''}" for t
    using classify_status [of rt _ v] by (simp add: record_of_def)
  with assms returns(2) show ?thesis
    by (auto simp: stored_def world_of_def store_write_def split: if_splits)
next
  case (panics p)
  with assms show ?thesis by (simp add: stored_def world_of_def)
qed

lemma world_of_probe_all_Cons:
  "world_of (probe_all rt (c # cs) w) =
     (case probe rt c w of Inl pw \<Rightarrow> snd pw | Inr w' \<Rightarrow> world_of (probe_all rt cs w'))"
  by (auto simp: world_of_def split: sum.splits)

lemma probe_all_stored:
  "stored (world_of (probe_all rt cs w)) n = Some r \<Longrightarrow>
     stored w n = Some r \<or> hc_Status r \<in> {''ok'', ''unreachable'', ''invalid_response''}"
proof (induction cs arbitrary: w)
  case Nil
  then show ?case by (simp add: world_of_def)
next
  case (Cons c cs)
  show ?case
  proof (cases "probe rt c w")
    case (Inl pw)
    with Cons.prems have "stored (world_of (probe rt c w)) n = Some r"
      by (simp add: world_of_def split: prod.splits)
    then show ?thesis by (rule probe_stored)
  next
    case (Inr w')
    with Cons.prems have "stored (world_of (probe_all rt cs w')) n = Some r"
      by (simp add: world_of_probe_all_Cons)
    then have "stored w' n = Some r \<or> hc_Status r \<in> {''ok'', ''unreachable'', ''invalid_response''}"
      by (rule Cons.IH)
    moreover have "stored w' n = Some r \<Longrightarrow>
        stored w n = Some r \<or> hc_Status r \<in> {''ok'', ''unreachable'', ''invalid_response''}"
      using probe_stored [of rt c w n r] Inr by (simp add: world_of_def)
    ultimately show ?thesis by blast
  qed
qed

text \<open>What a cycle that returns has done: one call, one record and one line per component.\<close>

lemma probe_all_returns:
  "probe_all rt cs w = Inr w' \<Longrightarrow>
     gets w' = gets w + length cs \<and> nows w' = nows w + 2 * length cs \<and>
     (\<exists>ls. logger w' = logger w @ ls \<and> map le_Component ls = map cc_Name cs) \<and>
     cc_Name ` set cs \<union> dom (Components (statusMap w)) \<subseteq> dom (Components (statusMap w'))"
proof (induction cs arbitrary: w)
  case Nil
  then show ?case by simp
next
  case (Cons c cs)
  show ?case
  proof (cases rule: probe_cases [of rt w c])
    case (returns v)
    let ?w1 = "\<lparr>statusMap = store_write (cc_Name c) v (time_Now rt (nows w)) (statusMap w),
              logger = logger w @ [entry_of (cc_Name c) v (time_Now rt (Suc (nows w)))],
              gets = Suc (gets w), nows = Suc (Suc (nows w))\<rparr>"
    from Cons.prems returns(2) have "probe_all rt cs ?w1 = Inr w'" by simp
    from Cons.IH [OF this] obtain ls where
      g: "gets w' = gets ?w1 + length cs" and n: "nows w' = nows ?w1 + 2 * length cs" and
      l: "logger w' = logger ?w1 @ ls" "map le_Component ls = map cc_Name cs" and
      d: "cc_Name ` set cs \<union> dom (Components (statusMap ?w1)) \<subseteq> dom (Components (statusMap w'))"
      by blast
    from l have "logger w' = logger w @ (entry_of (cc_Name c) v (time_Now rt (Suc (nows w))) # ls)"
        "map le_Component (entry_of (cc_Name c) v (time_Now rt (Suc (nows w))) # ls) = map cc_Name (c # cs)"
      by (simp_all add: entry_of_def)
    then have "\<exists>ls. logger w' = logger w @ ls \<and> map le_Component ls = map cc_Name (c # cs)"
      by blast
    moreover from d have "cc_Name ` set (c # cs) \<union> dom (Components (statusMap w)) \<subseteq> dom (Components (statusMap w'))"
      by (auto simp: store_write_def)
    ultimately show ?thesis using g n by simp
  next
    case (panics p)
    with Cons.prems show ?thesis by simp
  qed
qed


lemmas sample_eval = checkComponents_def config_of_def probe_Inr probe_Inl sample_simps
  sample_classify components_simps new_world_def NewStatusMap_def store_write_def
  record_of_def entry_of_def probe_all.simps


lemma after_cycle_eq:
  "after_cycle =
     \<lparr>statusMap = \<lparr>Components =
        [''db'' \<mapsto> \<lparr>hc_Name = ''db'', hc_Status = ''ok'', hc_EndpointStatus = ''ok'',
                    hc_HTTPResult = ''200 OK'', hc_LastChecked = 0, hc_Error = []\<rparr>,
         ''cache'' \<mapsto> \<lparr>hc_Name = ''cache'', hc_Status = ''unreachable'',
                    hc_EndpointStatus = ''not ok'', hc_HTTPResult = refused,
                    hc_LastChecked = 2, hc_Error = refused\<rparr>,
         ''web'' \<mapsto> \<lparr>hc_Name = ''web'', hc_Status = ''ok'', hc_EndpointStatus = ''ok'',
                    hc_HTTPResult = ''200 OK'', hc_LastChecked = 4, hc_Error = []\<rparr>]\<rparr>,
      logger =
        [\<lparr>le_Time = 1, le_Component = ''db'', le_Status = ''ok'', le_EndpointStatus = ''ok'',
          le_HTTPResult = ''200 OK'', le_Error = []\<rparr>,
         \<lparr>le_Time = 3, le_Component = ''cache'', le_Status = ''unreachable'',
          le_EndpointStatus = ''not ok'', le_HTTPResult = refused, le_Error = refused\<rparr>,
         \<lparr>le_Time = 5, le_Component = ''web'', le_Status = ''ok'', le_EndpointStatus = ''ok'',
          le_HTTPResult = ''200 OK'', le_Error = []\<rparr>],
      gets = 3, nows = 6\<rparr>"
  unfolding after_cycle_def by (simp add: sample_eval world_of_def)

lemma after_cycle_lookup:
  "Components (statusMap after_cycle) ''db'' =
     Some \<lparr>hc_Name = ''db'', hc_Status = ''ok'', hc_EndpointStatus = ''ok'',
           hc_HTTPResult = ''200 OK'', hc_LastChecked = 0, hc_Error = []\<rparr>"
  "Components (statusMap after_cycle) ''cache'' =
     Some \<lparr>hc_Name = ''cache'', hc_Status = ''unreachable'', hc_EndpointStatus = ''not ok'',
           hc_HTTPResult = refused, hc_LastChecked = 2, hc_Error = refused\<rparr>"
  "Components (statusMap after_cycle) ''web'' =
     Some \<lparr>hc_Name = ''web'', hc_Status = ''ok'', hc_EndpointStatus = ''ok'',
           hc_HTTPResult = ''200 OK'', hc_LastChecked = 4, hc_Error = []\<rparr>"
  "dom (Components (statusMap after_cycle)) = {''db'', ''cache'', ''web''}"
  by (auto simp: after_cycle_eq)

lemma refused_not_Nil: "refused \<noteq> []"
  by (simp add: refused_def)

text \<open>
  C1. The claim: a response with a status code other than 200 whose body is a JSON object
  with a \<open>status\<close> other than \<open>ok\<close> is classified \<open>invalid_response\<close>, with the JSON
  parse error as error text, and the classifier does not crash. The code: such a body
  parses, so \<open>decErr\<close> is nil and \<open>decErr.Error()\<close> panics. A 503 answer with the body
  \<open>{"status":"down"}\<close> ends the cycle, and the process, with a nil dereference.
\<close>

theorem non200_json_not_ok_panics:
  \<open>json_Unmarshal sample_rt ''{"status":"down"}'' = (None, ''down'') \<and>
   classify sample_rt
     (Get_ok \<lparr>resp_Status = ''503 Service Unavailable'', resp_StatusCode = 503,
              resp_Body = ''{"status":"down"}''\<rparr>) = Inl NilDereference \<and>
   checkComponents sample_rt (config_of [api]) new_world =
     Inl (NilDereference, \<lparr>statusMap = NewStatusMap, logger = [], gets = 1, nows = 0\<rparr>)\<close>
proof -
  have a: \<open>json_Unmarshal sample_rt ''{"status":"down"}'' = (None, ''down'')\<close>
    by (simp add: sample_simps sample_Unmarshal_def)
  then have b: \<open>classify sample_rt
     (Get_ok \<lparr>resp_Status = ''503 Service Unavailable'', resp_StatusCode = 503,
              resp_Body = ''{"status":"down"}''\<rparr>) = Inl NilDereference\<close>
    by (simp add: classify_nil_decErr [where st = "''down''"])
  have c: "checkComponents sample_rt (config_of [api]) new_world =
     Inl (NilDereference, \<lparr>statusMap = NewStatusMap, logger = [], gets = 1, nows = 0\<rparr>)"
    by (simp add: sample_eval)
  from a b c show ?thesis by blast
qed

text \<open>
  C2, as the spec has it: a response with the body \<open>{"status":"ok"}\<close> and a status code other
  than 200 is classified \<open>invalid_response\<close>. It is not: the body is looked at before the
  status code, and a 503 answer with this body is classified \<open>ok\<close>.
\<close>

theorem json_ok_503_is_ok:
  \<open>json_Unmarshal sample_rt ''{"status":"ok"}'' = (None, ''ok'') \<and>
   classify sample_rt
     (Get_ok \<lparr>resp_Status = ''503 Service Unavailable'', resp_StatusCode = 503,
              resp_Body = ''{"status":"ok"}''\<rparr>) =
     Inr \<lparr>v_status = ''ok'', v_endpointStatus = ''ok'',
          v_httpResult = ''503 Service Unavailable'', v_errMsg = []\<rparr> \<and>
   stored (world_of (checkComponents sample_rt (config_of [lb]) new_world)) ''lb'' =
     Some \<lparr>hc_Name = ''lb'', hc_Status = ''ok'', hc_EndpointStatus = ''ok'',
           hc_HTTPResult = ''503 Service Unavailable'', hc_LastChecked = 0, hc_Error = []\<rparr> \<and>
   ''ok'' \<noteq> ''invalid_response''\<close>
proof -
  have "stored (world_of (checkComponents sample_rt (config_of [lb]) new_world)) ''lb'' =
     Some \<lparr>hc_Name = ''lb'', hc_Status = ''ok'', hc_EndpointStatus = ''ok'',
           hc_HTTPResult = ''503 Service Unavailable'', hc_LastChecked = 0, hc_Error = []\<rparr>"
    by (simp add: sample_eval stored_def world_of_def)
  then show ?thesis
    by (simp add: sample_simps sample_Unmarshal_def classify_json_ok)
qed

text \<open>
  C2, amended: a response whose body decodes without error to a \<open>status\<close> of \<open>ok\<close> is
  classified \<open>ok\<close>, with endpoint status \<open>ok\<close> and no error text, whatever its status code.
\<close>

theorem json_ok_any_status_code:
  assumes "json_Unmarshal rt (resp_Body resp) = (None, ''ok'')"
  shows "classify rt (Get_ok resp) =
     Inr \<lparr>v_status = ''ok'', v_endpointStatus = ''ok'',
          v_httpResult = resp_Status resp, v_errMsg = []\<rparr>"
  using assms by (rule classify_json_ok)

theorem json_ok_any_status_code_witness:
  \<open>classify sample_rt
     (Get_ok \<lparr>resp_Status = ''404 Not Found'', resp_StatusCode = 404,
              resp_Body = ''{"status":"ok"}''\<rparr>) =
     Inr \<lparr>v_status = ''ok'', v_endpointStatus = ''ok'',
          v_httpResult = ''404 Not Found'', v_errMsg = []\<rparr>\<close>
  using json_ok_any_status_code [of sample_rt
     \<open>\<lparr>resp_Status = ''404 Not Found'', resp_StatusCode = 404,
       resp_Body = ''{"status":"ok"}''\<rparr>\<close>]
  by (simp add: sample_simps sample_Unmarshal_def)

text \<open>
  C3. A response with status code 200 is classified \<open>ok\<close>, with endpoint status \<open>ok\<close>,
  whatever its body and whatever the JSON decoder makes of it.
\<close>

theorem status_200_is_ok:
  assumes "resp_StatusCode resp = 200"
  shows "classify rt (Get_ok resp) =
     Inr \<lparr>v_status = ''ok'', v_endpointStatus = ''ok'',
          v_httpResult = resp_Status resp, v_errMsg = []\<rparr>"
  using assms by (rule classify_200)

theorem status_200_is_ok_witness:
  \<open>classify sample_rt
     (Get_ok \<lparr>resp_Status = ''200 OK'', resp_StatusCode = 200,
              resp_Body = ''{"status":"down"}''\<rparr>) =
     Inr \<lparr>v_status = ''ok'', v_endpointStatus = ''ok'', v_httpResult = ''200 OK'', v_errMsg = []\<rparr> \<and>
   classify sample_rt
     (Get_ok \<lparr>resp_Status = ''200 OK'', resp_StatusCode = 200, resp_Body = []\<rparr>) =
     Inr \<lparr>v_status = ''ok'', v_endpointStatus = ''ok'', v_httpResult = ''200 OK'', v_errMsg = []\<rparr>\<close>
  using status_200_is_ok [of
     \<open>\<lparr>resp_Status = ''200 OK'', resp_StatusCode = 200, resp_Body = ''{"status":"down"}''\<rparr>\<close>
     sample_rt]
    status_200_is_ok [of \<open>\<lparr>resp_Status = ''200 OK'', resp_StatusCode = 200, resp_Body = []\<rparr>\<close>
     sample_rt]
  by simp


text \<open>
  C4, as the spec has it: after a failed transport call the stored record has status
  \<open>unreachable\<close>, endpoint status \<open>not_ok\<close>, and the error text as HTTP result and as
  error. The endpoint status the code stores is \<open>not ok\<close>, with a space.
\<close>

theorem refused_probe_stores_not_ok_with_space:
  "http_Get sample_rt (gets new_world) (cc_Endpoint cache) = Get_err refused \<and>
   stored (world_of (probe sample_rt cache new_world)) ''cache'' =
     Some \<lparr>hc_Name = ''cache'', hc_Status = ''unreachable'', hc_EndpointStatus = ''not ok'',
           hc_HTTPResult = refused, hc_LastChecked = 0, hc_Error = refused\<rparr> \<and>
   ''not ok'' \<noteq> ''not_ok''"
proof -
  have "http_Get sample_rt (gets new_world) (cc_Endpoint cache) = Get_err refused"
    by (simp add: sample_simps sample_Get_def components_simps)
  moreover have "stored (world_of (probe sample_rt cache new_world)) ''cache'' =
     Some \<lparr>hc_Name = ''cache'', hc_Status = ''unreachable'', hc_EndpointStatus = ''not ok'',
           hc_HTTPResult = refused, hc_LastChecked = 0, hc_Error = refused\<rparr>"
    by (simp add: sample_eval stored_def world_of_def)
  ultimately show ?thesis by simp
qed

text \<open>
  C4, amended: after a failed transport call the probe returns, and the record stored under
  the component's name has status \<open>unreachable\<close>, endpoint status \<open>not ok\<close>, and the
  error text, which is not empty, as HTTP result and as error.
\<close>

theorem transport_failure_record:
  assumes "http_Get rt (gets w) (cc_Endpoint c) = Get_err msg" and "msg \<noteq> []"
  shows "\<exists>w' r. probe rt c w = Inr w' \<and> stored w' (cc_Name c) = Some r \<and>
           r = \<lparr>hc_Name = cc_Name c, hc_Status = ''unreachable'',
                hc_EndpointStatus = ''not ok'', hc_HTTPResult = msg,
                hc_LastChecked = time_Now rt (nows w), hc_Error = msg\<rparr> \<and>
           hc_Error r \<noteq> []"
proof -
  from assms(1) have "classify rt (http_Get rt (gets w) (cc_Endpoint c)) =
      Inr \<lparr>v_status = ''unreachable'', v_endpointStatus = ''not ok'',
           v_httpResult = msg, v_errMsg = msg\<rparr>"
    by (simp add: classify_Get_err)
  from probe_Inr [OF this] assms(2) show ?thesis
    by (simp add: stored_def store_write_def record_of_def)
qed

theorem transport_failure_record_witness:
  "\<exists>w' r. probe sample_rt cache after_cycle = Inr w' \<and> stored w' ''cache'' = Some r \<and>
     r = \<lparr>hc_Name = ''cache'', hc_Status = ''unreachable'', hc_EndpointStatus = ''not ok'',
          hc_HTTPResult = refused, hc_LastChecked = 6, hc_Error = refused\<rparr> \<and>
     hc_Error r \<noteq> []"
proof -
  have "http_Get sample_rt (gets after_cycle) (cc_Endpoint cache) = Get_err refused"
    by (simp add: sample_simps sample_Get_def components_simps)
  from transport_failure_record [OF this refused_not_Nil]
  show ?thesis by (simp add: components_simps sample_simps after_cycle_eq)
qed

text \<open>
  C5. The report carries the snapshot \<open>GetAll\<close> returns; its status is \<open>ok\<close> if every record
  of the snapshot has status \<open>ok\<close> and \<open>degraded\<close> otherwise, so it is \<open>ok\<close> for the empty
  snapshot.
\<close>

theorem aggregate_status_rule:
  "hr_Components (health_handler ks s) = GetAll ks s \<and>
   hr_Status (health_handler ks s) =
     (if \<forall>c \<in> set (GetAll ks s). hc_Status c = ''ok'' then ''ok'' else ''degraded'') \<and>
   (GetAll ks s = [] \<longrightarrow> hr_Status (health_handler ks s) = ''ok'')"
  by (simp add: health_handler_def Let_def aggregate_iff)

lemma GetAll_after_cycle:
  "GetAll [''web'', ''db'', ''cache''] (statusMap after_cycle) =
     [\<lparr>hc_Name = ''web'', hc_Status = ''ok'', hc_EndpointStatus = ''ok'',
       hc_HTTPResult = ''200 OK'', hc_LastChecked = 4, hc_Error = []\<rparr>,
      \<lparr>hc_Name = ''db'', hc_Status = ''ok'', hc_EndpointStatus = ''ok'',
       hc_HTTPResult = ''200 OK'', hc_LastChecked = 0, hc_Error = []\<rparr>,
      \<lparr>hc_Name = ''cache'', hc_Status = ''unreachable'', hc_EndpointStatus = ''not ok'',
       hc_HTTPResult = refused, hc_LastChecked = 2, hc_Error = refused\<rparr>]"
  by (simp add: GetAll_def map_filter_simps after_cycle_lookup)

theorem aggregate_status_rule_witness:
  "hr_Status (health_handler [''web'', ''db'', ''cache''] (statusMap after_cycle)) = ''degraded'' \<and>
   hr_Status (health_handler [''web'', ''db''] (statusMap after_cycle)) = ''ok'' \<and>
   hr_Status (health_handler [] NewStatusMap) = ''ok''"
proof -
  have "GetAll [] NewStatusMap = []"
    by (simp add: GetAll_def map_filter_simps)
  moreover have "GetAll [''web'', ''db''] (statusMap after_cycle) =
     [\<lparr>hc_Name = ''web'', hc_Status = ''ok'', hc_EndpointStatus = ''ok'',
       hc_HTTPResult = ''200 OK'', hc_LastChecked = 4, hc_Error = []\<rparr>,
      \<lparr>hc_Name = ''db'', hc_Status = ''ok'', hc_EndpointStatus = ''ok'',
       hc_HTTPResult = ''200 OK'', hc_LastChecked = 0, hc_Error = []\<rparr>]"
    by (simp add: GetAll_def map_filter_simps after_cycle_lookup)
  ultimately show ?thesis
    using aggregate_status_rule [of "[''web'', ''db'', ''cache'']" "statusMap after_cycle"]
      aggregate_status_rule [of "[''web'', ''db'']" "statusMap after_cycle"]
      aggregate_status_rule [of "[]" NewStatusMap]
    by (simp add: GetAll_after_cycle)
qed

text \<open>
  A probe that returns has stored one record under the component's name and appended one
  line, both built from the same four variables.
\<close>

lemma probe_mirrors:
  assumes "probe rt c w = Inr w'"
  shows "\<exists>v. classify rt (http_Get rt (gets w) (cc_Endpoint c)) = Inr v \<and>
           stored w' (cc_Name c) = Some (record_of (cc_Name c) v (time_Now rt (nows w))) \<and>
           logger w' = logger w @ [entry_of (cc_Name c) v (time_Now rt (Suc (nows w)))]"
proof (cases rule: probe_cases [of rt w c])
  case (returns v)
  with assms have "stored w' (cc_Name c) = Some (record_of (cc_Name c) v (time_Now rt (nows w)))"
      "logger w' = logger w @ [entry_of (cc_Name c) v (time_Now rt (Suc (nows w)))]"
    by (auto simp: stored_def store_write_def)
  with returns(1) show ?thesis by blast
next
  case (panics p)
  with assms show ?thesis by simp
qed

text \<open>
  C6. The claim: a cycle probes every configured component once, in order, storing one record
  and logging one line for each. The code: with \<open>db\<close>, \<open>api\<close> and \<open>cache\<close> configured and
  \<open>api\<close> answering 503 with \<open>{"status":"down"}\<close>, the cycle stores and logs \<open>db\<close>, calls
  \<open>api\<close>, and panics: nothing is stored or logged for \<open>api\<close>, and \<open>cache\<close> is never called.
\<close>

theorem cycle_cut_short_by_panic:
  "checkComponents sample_rt (config_of [db, api, cache]) new_world =
     Inl (NilDereference,
       \<lparr>statusMap = \<lparr>Components =
          [''db'' \<mapsto> \<lparr>hc_Name = ''db'', hc_Status = ''ok'', hc_EndpointStatus = ''ok'',
                      hc_HTTPResult = ''200 OK'', hc_LastChecked = 0, hc_Error = []\<rparr>]\<rparr>,
        logger =
          [\<lparr>le_Time = 1, le_Component = ''db'', le_Status = ''ok'', le_EndpointStatus = ''ok'',
            le_HTTPResult = ''200 OK'', le_Error = []\<rparr>],
        gets = 2, nows = 2\<rparr>)"
  by (simp add: sample_eval)


text \<open>The writes of a probe cycle are store operations: \<open>run_ops\<close> covers what the prober does.\<close>

lemma run_ops_Cons: "run_ops (op # ops) s = run_ops ops (apply_op s op)"
  by (simp add: run_ops_def)

lemma probe_all_run_ops:
  "\<exists>ops. statusMap (world_of (probe_all rt cs w)) = run_ops ops (statusMap w)"
proof (induction cs arbitrary: w)
  case Nil
  have "statusMap (world_of (probe_all rt [] w)) = run_ops [] (statusMap w)"
    by (simp add: world_of_def run_ops_Nil)
  then show ?case by blast
next
  case (Cons c cs)
  show ?case
  proof (cases rule: probe_cases [of rt w c])
    case (returns v)
    let ?w1 = "\<lparr>statusMap = store_write (cc_Name c) v (time_Now rt (nows w)) (statusMap w),
              logger = logger w @ [entry_of (cc_Name c) v (time_Now rt (Suc (nows w)))],
              gets = Suc (gets w), nows = Suc (Suc (nows w))\<rparr>"
    from Cons.IH [of ?w1] obtain ops where
      "statusMap (world_of (probe_all rt cs ?w1)) = run_ops ops (statusMap ?w1)" by blast
    with returns(2) have "statusMap (world_of (probe_all rt (c # cs) w)) =
        run_ops (Op_write (cc_Name c) v (time_Now rt (nows w)) # ops) (statusMap w)"
      by (simp add: world_of_probe_all_Cons run_ops_Cons)
    then show ?thesis by blast
  next
    case (panics p)
    then have "statusMap (world_of (probe_all rt (c # cs) w)) = run_ops [] (statusMap w)"
      by (simp add: world_of_def run_ops_Nil)
    then show ?thesis by blast
  qed
qed

text \<open>
  C7. Over any sequence of store operations, from any store: no name leaves the store; a
  record found under a name was there from the start or is, whole, the record one operation
  of the sequence wrote under that name; the record an operation writes is what a lookup of
  its name returns next, whatever stood there before. From the empty store, \<open>GetAll\<close>
  returns one record for each name it visits, none twice.
\<close>

theorem store_write_discipline:
  "dom (Components s) \<subseteq> dom (Components (run_ops ops s)) \<and>
   (Components (run_ops ops s) n = Some r \<longrightarrow>
      Components s n = Some r \<or> (\<exists>op \<in> set ops. written op = Some (n, r))) \<and>
   (written op = Some (n, r) \<longrightarrow> Components (run_ops (ops @ [op]) s) n = Some r) \<and>
   (range_order (run_ops ops NewStatusMap) ks \<longrightarrow>
      map hc_Name (GetAll ks (run_ops ops NewStatusMap)) = ks \<and>
      distinct (map hc_Name (GetAll ks (run_ops ops NewStatusMap))))"
proof -
  have "distinct (map hc_Name (GetAll ks (run_ops ops NewStatusMap)))"
    if "range_order (run_ops ops NewStatusMap) ks"
    using that GetAll_names [OF that] by (simp add: range_order_def)
  then show ?thesis
    using dom_run_ops [of s ops] run_ops_origin [of ops s n r] run_ops_last_write [of op n r ops s]
      GetAll_names [of ops ks]
    by blast
qed

lemma run_two_writes:
  "Components (run_ops [Op_Update 7 ''db'' ''unknown'',
       Op_write ''db'' \<lparr>v_status = ''ok'', v_endpointStatus = ''ok'',
         v_httpResult = ''200 OK'', v_errMsg = []\<rparr> 8] NewStatusMap) =
     [''db'' \<mapsto> \<lparr>hc_Name = ''db'', hc_Status = ''ok'', hc_EndpointStatus = ''ok'',
                 hc_HTTPResult = ''200 OK'', hc_LastChecked = 8, hc_Error = []\<rparr>]"
  by (simp add: run_ops_def Update_def store_write_def record_of_def NewStatusMap_def)

theorem store_write_discipline_witness:
  "dom (Components NewStatusMap) \<subseteq> {''db''} \<and>
   Components (run_ops ([Op_Update 7 ''db'' ''unknown''] @
       [Op_write ''db'' \<lparr>v_status = ''ok'', v_endpointStatus = ''ok'',
         v_httpResult = ''200 OK'', v_errMsg = []\<rparr> 8]) NewStatusMap) ''db'' =
     Some \<lparr>hc_Name = ''db'', hc_Status = ''ok'', hc_EndpointStatus = ''ok'',
           hc_HTTPResult = ''200 OK'', hc_LastChecked = 8, hc_Error = []\<rparr> \<and>
   (\<exists>op \<in> {Op_Update 7 ''db'' ''unknown'',
        Op_write ''db'' \<lparr>v_status = ''ok'', v_endpointStatus = ''ok'',
          v_httpResult = ''200 OK'', v_errMsg = []\<rparr> 8}.
      written op = Some (''db'', \<lparr>hc_Name = ''db'', hc_Status = ''ok'', hc_EndpointStatus = ''ok'',
           hc_HTTPResult = ''200 OK'', hc_LastChecked = 8, hc_Error = []\<rparr>)) \<and>
   map hc_Name (GetAll [''db''] (run_ops [Op_Update 7 ''db'' ''unknown'',
       Op_write ''db'' \<lparr>v_status = ''ok'', v_endpointStatus = ''ok'',
         v_httpResult = ''200 OK'', v_errMsg = []\<rparr> 8] NewStatusMap)) = [''db'']"
proof -
  let ?v = "\<lparr>v_status = ''ok'', v_endpointStatus = ''ok'', v_httpResult = ''200 OK'', v_errMsg = []\<rparr>"
  let ?r = "\<lparr>hc_Name = ''db'', hc_Status = ''ok'', hc_EndpointStatus = ''ok'',
           hc_HTTPResult = ''200 OK'', hc_LastChecked = 8, hc_Error = []\<rparr>"
  let ?ops = "[Op_Update 7 ''db'' ''unknown'', Op_write ''db'' ?v 8]"
  have h1: "Components (run_ops ?ops NewStatusMap) ''db'' = Some ?r"
    by (simp add: run_two_writes)
  have h2: "written (Op_write ''db'' ?v 8) = Some (''db'', ?r)"
    by (simp add: record_of_def)
  have h3: "range_order (run_ops ?ops NewStatusMap) [''db'']"
    by (simp add: range_order_def run_two_writes)
  have h4: "Components NewStatusMap ''db'' \<noteq> Some ?r"
    by (simp add: NewStatusMap_def)
  from store_write_discipline [of NewStatusMap ?ops "''db''" ?r "Op_write ''db'' ?v 8" "[''db'']"]
    store_write_discipline [of NewStatusMap "[Op_Update 7 ''db'' ''unknown'']" "''db''" ?r
      "Op_write ''db'' ?v 8" "[]"]
    h1 h2 h3 h4
  show ?thesis by (simp add: run_two_writes)
qed


text \<open>
  C8, as the spec has it: two calls of \<open>GetAll\<close> with no update between them return equal
  lists. \<open>GetAll\<close> appends in the order \<open>range\<close> visits the map, and two loops over the same
  map need not visit it in the same order: on the store a cycle over \<open>db\<close>, \<open>cache\<close> and
  \<open>web\<close> leaves, one order gives a list that starts with the record of \<open>db\<close>, another a
  list that starts with the record of \<open>web\<close>.
\<close>

theorem GetAll_order_differs:
  "range_order (statusMap after_cycle) [''db'', ''cache'', ''web''] \<and>
   range_order (statusMap after_cycle) [''web'', ''db'', ''cache''] \<and>
   GetAll [''db'', ''cache'', ''web''] (statusMap after_cycle) \<noteq>
   GetAll [''web'', ''db'', ''cache''] (statusMap after_cycle)"
proof -
  have "range_order (statusMap after_cycle) [''db'', ''cache'', ''web'']"
    by (simp add: range_order_def after_cycle_lookup)
  moreover have "range_order (statusMap after_cycle) [''web'', ''db'', ''cache'']"
    by (auto simp: range_order_def after_cycle_lookup)
  moreover have "hd (GetAll [''db'', ''cache'', ''web''] (statusMap after_cycle)) \<noteq>
      hd (GetAll [''web'', ''db'', ''cache''] (statusMap after_cycle))"
    by (simp add: GetAll_def map_filter_simps after_cycle_lookup)
  ultimately show ?thesis by metis
qed

text \<open>
  C8, amended: two calls of \<open>GetAll\<close> with no update between them return the same records,
  each as often as the other (equal as multisets, so equal in length and as sets); the order
  of the two lists may differ.
\<close>

theorem GetAll_same_records:
  assumes "range_order s ks1" and "range_order s ks2"
  shows "mset (GetAll ks1 s) = mset (GetAll ks2 s) \<and>
         set (GetAll ks1 s) = set (GetAll ks2 s) \<and>
         length (GetAll ks1 s) = length (GetAll ks2 s)"
proof -
  from assms have m: "mset (GetAll ks1 s) = mset (GetAll ks2 s)"
    by (rule GetAll_mset)
  from m have "set (GetAll ks1 s) = set (GetAll ks2 s)"
    by (rule mset_eq_setD)
  moreover from m have "length (GetAll ks1 s) = length (GetAll ks2 s)"
    by (rule mset_eq_length)
  ultimately show ?thesis using m by simp
qed

theorem GetAll_same_records_witness:
  "mset (GetAll [''cache'', ''web'', ''db''] (statusMap after_cycle)) =
   mset (GetAll [''web'', ''cache'', ''db''] (statusMap after_cycle)) \<and>
   length (GetAll [''cache'', ''web'', ''db''] (statusMap after_cycle)) = 3"
proof -
  have a: "range_order (statusMap after_cycle) [''cache'', ''web'', ''db'']"
    by (auto simp: range_order_def after_cycle_lookup)
  have b: "range_order (statusMap after_cycle) [''web'', ''cache'', ''db'']"
    by (auto simp: range_order_def after_cycle_lookup)
  have "length (GetAll [''web'', ''cache'', ''db''] (statusMap after_cycle)) = 3"
    by (simp add: GetAll_def map_filter_simps after_cycle_lookup)
  with GetAll_same_records [OF a b] show ?thesis by simp
qed

text \<open>
  C9. \<open>Update\<close> stores, under the name, a record with that name, that status and the time
  of the write; its endpoint status, HTTP result and error are empty, whatever record stood
  there before. The prober's own write stores all four of its variables.
\<close>

theorem Update_stores_bare_record:
  "Components (Update now name status s) name =
     Some \<lparr>hc_Name = name, hc_Status = status, hc_EndpointStatus = [], hc_HTTPResult = [],
           hc_LastChecked = now, hc_Error = []\<rparr> \<and>
   Components (store_write name v now s) name =
     Some \<lparr>hc_Name = name, hc_Status = v_status v, hc_EndpointStatus = v_endpointStatus v,
           hc_HTTPResult = v_httpResult v, hc_LastChecked = now, hc_Error = v_errMsg v\<rparr>"
  by (simp add: Update_def store_write_def record_of_def)

text \<open>
  C10. A classification that returns gives one of the statuses \<open>ok\<close>, \<open>unreachable\<close> and
  \<open>invalid_response\<close>, never \<open>unknown\<close>, and that is the status of the record the probe
  writes. So a record found in the store after a cycle, ended or cut short, either stood
  there unchanged before the cycle or has one of the three statuses; after a cycle started
  with the empty store every record has.
\<close>

theorem probe_status_vocabulary:
  "(classify rt res = Inr v \<longrightarrow>
      hc_Status (record_of name v now) \<in> {''ok'', ''unreachable'', ''invalid_response''} \<and>
      hc_Status (record_of name v now) \<noteq> ''unknown'') \<and>
   (stored (world_of (checkComponents rt cfg w)) n = Some r \<longrightarrow>
      stored w n = Some r \<or> hc_Status r \<in> {''ok'', ''unreachable'', ''invalid_response''}) \<and>
   (stored (world_of (checkComponents rt cfg new_world)) n = Some r \<longrightarrow>
      hc_Status r \<in> {''ok'', ''unreachable'', ''invalid_response''} \<and> hc_Status r \<noteq> ''unknown'')"
proof -
  have a: "hc_Status (record_of name v now) \<in> {''ok'', ''unreachable'', ''invalid_response''}"
    if "classify rt res = Inr v"
    using classify_status [OF that] by (simp add: record_of_def)
  have b: "stored w n = Some r \<or> hc_Status r \<in> {''ok'', ''unreachable'', ''invalid_response''}"
    if "stored (world_of (checkComponents rt cfg w)) n = Some r" for w
    using that unfolding checkComponents_def by (rule probe_all_stored)
  have c: "hc_Status r \<in> {''ok'', ''unreachable'', ''invalid_response''}"
    if "stored (world_of (checkComponents rt cfg new_world)) n = Some r"
    using b [OF that] by (simp add: stored_def new_world_def NewStatusMap_def)
  have d: "x \<in> {''ok'', ''unreachable'', ''invalid_response''} \<Longrightarrow> x \<noteq> ''unknown''" for x
    by auto
  from a b c d show ?thesis by blast
qed

theorem probe_status_vocabulary_witness:
  "hc_Status (record_of ''cache''
      \<lparr>v_status = ''unreachable'', v_endpointStatus = ''not ok'', v_httpResult = refused,
       v_errMsg = refused\<rparr> 2) \<noteq> ''unknown'' \<and>
   hc_Status \<lparr>hc_Name = ''cache'', hc_Status = ''unreachable'', hc_EndpointStatus = ''not ok'',
           hc_HTTPResult = refused, hc_LastChecked = 2, hc_Error = refused\<rparr>
     \<in> {''ok'', ''unreachable'', ''invalid_response''}"
proof -
  let ?v = "\<lparr>v_status = ''unreachable'', v_endpointStatus = ''not ok'', v_httpResult = refused,
       v_errMsg = refused\<rparr>"
  let ?r = "\<lparr>hc_Name = ''cache'', hc_Status = ''unreachable'', hc_EndpointStatus = ''not ok'',
           hc_HTTPResult = refused, hc_LastChecked = 2, hc_Error = refused\<rparr>"
  let ?cfg = "config_of [db, cache, web]"
  have h1: "classify sample_rt (Get_err refused) = Inr ?v"
    by (simp add: classify_Get_err)
  have h2: "stored (world_of (checkComponents sample_rt ?cfg new_world)) ''cache'' = Some ?r"
    using after_cycle_lookup(2) by (simp add: stored_def after_cycle_def)
  from probe_status_vocabulary [of sample_rt "Get_err refused" ?v "''cache''" 2 ?cfg new_world
      "''cache''" ?r] h1 h2
  show ?thesis by blast
qed

end
